theory Spec2Isabelle
  imports Complex_Main "HOL-Library.AList" "HOL-Library.Multiset"
begin

section \<open>Python values, text and dictionaries\<close>

text \<open>
  The script \<^verbatim>\<open>scripts/download_sheet_and_build.py\<close> turns the grid of text cells of a
  spreadsheet into dictionaries, adds four computed numbers to each of them and groups them
  by \<^verbatim>\<open>line_id\<close>. A cell is text; a computed field is a float; \<^verbatim>\<open>row.get(k)\<close> is
  \<^verbatim>\<open>None\<close> for a missing key. Text is a \<^typ>\<open>string\<close> whose characters are read as
  code points below 256. The float type \<open>'f\<close> stays a parameter.
\<close>

datatype error = ValueError | ZeroDivisionError

datatype 'f pyval = PyNone | PyStr string | PyFloat 'f

text \<open>
  A Python \<^verbatim>\<open>dict\<close> keeps its keys in insertion order and holds each key once: an
  association list with distinct keys, where storing under a key that is present replaces
  the value in place and storing under a new key appends (\<^const>\<open>AList.update\<close>).
\<close>

type_synonym ('k, 'v) dict = "('k \<times> 'v) list"

type_synonym 'f row = "(string, 'f pyval) dict"

definition keys :: "('k, 'v) dict \<Rightarrow> 'k list" where
  "keys d = map fst d"

definition dict_values :: "('k, 'v) dict \<Rightarrow> 'v list" where
  "dict_values d = map snd d"

definition setitem :: "('k, 'v) dict \<Rightarrow> 'k \<Rightarrow> 'v \<Rightarrow> ('k, 'v) dict" where
  "setitem d k v = AList.update k v d"

text \<open>\<^verbatim>\<open>d.get(k)\<close> and \<^verbatim>\<open>d.get(k, default)\<close>.\<close>

definition get :: "'f row \<Rightarrow> string \<Rightarrow> 'f pyval" where
  "get d k = (case map_of d k of None \<Rightarrow> PyNone | Some v \<Rightarrow> v)"

definition get_default :: "'f row \<Rightarrow> string \<Rightarrow> 'f pyval \<Rightarrow> 'f pyval" where
  "get_default d k dflt = (case map_of d k of None \<Rightarrow> dflt | Some v \<Rightarrow> v)"

text \<open>\<^verbatim>\<open>dict(pairs)\<close>: the pairs are stored one after the other, a later one overwriting.\<close>

definition dict_of :: "('k \<times> 'v) list \<Rightarrow> ('k, 'v) dict" where
  "dict_of ps = foldl (\<lambda>d (k, v). setitem d k v) [] ps"


section \<open>Reading the sheet: \<^verbatim>\<open>fetch_sheet_values\<close>\<close>

text \<open>
  The model starts at \<^verbatim>\<open>values = result.get("values", [])\<close>: the grid the Sheets API
  returned is the argument. The first row is the header; every other row is padded with
  empty cells up to the header's length and zipped with the header.
\<close>

definition row_padded :: "string list \<Rightarrow> string list \<Rightarrow> string list" where
  "row_padded header row = row @ replicate (length header - length row) ''''"

definition fetch_sheet_values :: "string list list \<Rightarrow> 'f row list" where
  "fetch_sheet_values vals =
     (case vals of
        [] \<Rightarrow> []
      | header # rest \<Rightarrow>
          map (\<lambda>row. dict_of (zip header (map PyStr (row_padded header row)))) rest)"


section \<open>Floats\<close>

text \<open>
  Python's \<^verbatim>\<open>float\<close> is the platform's binary64. Its arithmetic, its rounding and the
  conversion of a decimal numeral to the nearest float are taken as parameters; what the
  script decides itself (which text is a numeral, when a division is attempted, which
  value is stored under which key) is modelled in full. A numeral denotes a literal:
  a sign and an exact magnitude, an infinity or a NaN.
\<close>

datatype fliteral = Dec bool rat | Infinity bool | NaN bool

datatype fclass = Negative | Zero | Positive | NotANumber

record 'f float_ops =
  of_literal :: "fliteral \<Rightarrow> 'f"
  fclass :: "'f \<Rightarrow> fclass"
  fadd :: "'f \<Rightarrow> 'f \<Rightarrow> 'f"
  fsub :: "'f \<Rightarrow> 'f \<Rightarrow> 'f"
  fmul :: "'f \<Rightarrow> 'f \<Rightarrow> 'f"
  fdiv :: "'f \<Rightarrow> 'f \<Rightarrow> 'f"
  fround :: "'f \<Rightarrow> nat \<Rightarrow> 'f"
  frepr :: "'f \<Rightarrow> string"

text \<open>The constant \<^verbatim>\<open>0.0\<close>, the test \<^verbatim>\<open>x > 0\<close> and the division \<^verbatim>\<open>x / y\<close>,
  which raises when the divisor is a zero.\<close>

definition fzero :: "'f float_ops \<Rightarrow> 'f" where
  "fzero P = of_literal P (Dec False 0)"

definition gt0 :: "'f float_ops \<Rightarrow> 'f \<Rightarrow> bool" where
  "gt0 P x = (fclass P x = Positive)"

definition py_div :: "'f float_ops \<Rightarrow> 'f \<Rightarrow> 'f \<Rightarrow> error + 'f" where
  "py_div P x y = (if fclass P y = Zero then Inl ZeroDivisionError else Inr (fdiv P x y))"

subsection \<open>Text operations\<close>

definition py_str :: "'f float_ops \<Rightarrow> 'f pyval \<Rightarrow> string" where
  "py_str P x = (case x of PyNone \<Rightarrow> ''None'' | PyStr s \<Rightarrow> s | PyFloat f \<Rightarrow> frepr P f)"

text \<open>\<^verbatim>\<open>s.replace(",", "")\<close>.\<close>

definition replace_commas :: "string \<Rightarrow> string" where
  "replace_commas s = filter (\<lambda>c. c \<noteq> CHR '','') s"

text \<open>The whitespace of \<^verbatim>\<open>str.strip()\<close> among the code points below 256.\<close>

definition is_space :: "char \<Rightarrow> bool" where
  "is_space c = ((of_char c :: nat) \<in> set [9, 10, 11, 12, 13, 28, 29, 30, 31, 32, 133, 160])"

definition strip :: "string \<Rightarrow> string" where
  "strip s = rev (dropWhile is_space (rev (dropWhile is_space s)))"

definition is_digit :: "char \<Rightarrow> bool" where
  "is_digit c = (48 \<le> (of_char c :: nat) \<and> (of_char c :: nat) \<le> 57)"

definition digits_val :: "string \<Rightarrow> nat" where
  "digits_val ds = foldl (\<lambda>n c. 10 * n + (of_char c - 48)) 0 ds"

definition lower_char :: "char \<Rightarrow> char" where
  "lower_char c = (if 65 \<le> (of_char c :: nat) \<and> (of_char c :: nat) \<le> 90
                   then char_of (of_char c + 32 :: nat) else c)"

subsection \<open>The numerals \<^verbatim>\<open>float(s)\<close> accepts\<close>

text \<open>
  An underscore is allowed between two digits only; \<open>prev\<close> is the character before.
\<close>

fun drop_underscores :: "char \<Rightarrow> string \<Rightarrow> string option" where
  "drop_underscores prev [] = (if prev = CHR ''_'' then None else Some [])"
| "drop_underscores prev (c # cs) =
     (if c = CHR ''_'' then (if is_digit prev then drop_underscores c cs else None)
      else if prev = CHR ''_'' \<and> \<not> is_digit c then None
      else map_option ((#) c) (drop_underscores c cs))"

definition parse_sign :: "string \<Rightarrow> bool \<times> string" where
  "parse_sign s =
     (case s of
        [] \<Rightarrow> (False, [])
      | c # cs \<Rightarrow> if c = CHR ''-'' then (True, cs)
                 else if c = CHR ''+'' then (False, cs) else (False, s))"

definition pow10 :: "int \<Rightarrow> rat" where
  "pow10 e = (if 0 \<le> e then 10 ^ nat e else 1 / 10 ^ nat (- e))"

text \<open>
  The exponent part: nothing, or \<^verbatim>\<open>e\<close>/\<^verbatim>\<open>E\<close>, an optional sign and at least one digit,
  up to the end of the text.
\<close>

definition parse_exponent :: "string \<Rightarrow> int option" where
  "parse_exponent s =
     (case s of
        [] \<Rightarrow> Some 0
      | c # cs \<Rightarrow>
          if c = CHR ''e'' \<or> c = CHR ''E'' then
            (case parse_sign cs of
               (neg, ds) \<Rightarrow>
                 if ds \<noteq> [] \<and> list_all is_digit ds
                 then Some (if neg then - int (digits_val ds) else int (digits_val ds))
                 else None)
          else None)"

text \<open>
  A decimal numeral: digits, an optional point and digits, with a digit on at least one
  side of the point, then the exponent part. The result is the exact magnitude.
\<close>

definition parse_decimal :: "string \<Rightarrow> rat option" where
  "parse_decimal s =
     (let ip = takeWhile is_digit s;
          r1 = dropWhile is_digit s;
          fp = (case r1 of [] \<Rightarrow> [] | c # cs \<Rightarrow> if c = CHR ''.'' then takeWhile is_digit cs else []);
          r2 = (case r1 of [] \<Rightarrow> [] | c # cs \<Rightarrow> if c = CHR ''.'' then dropWhile is_digit cs else r1)
      in if ip = [] \<and> fp = [] then None
         else (case parse_exponent r2 of
                 None \<Rightarrow> None
               | Some e \<Rightarrow> Some (of_nat (digits_val (ip @ fp)) * pow10 (e - int (length fp)))))"

definition parse_float :: "string \<Rightarrow> fliteral option" where
  "parse_float s =
     (case drop_underscores (CHR 0x00) s of
        None \<Rightarrow> None
      | Some t \<Rightarrow>
          (case parse_sign t of
             (neg, u) \<Rightarrow>
               if map lower_char u = ''inf'' \<or> map lower_char u = ''infinity'' then Some (Infinity neg)
               else if map lower_char u = ''nan'' then Some (NaN neg)
               else map_option (Dec neg) (parse_decimal u)))"

text \<open>\<^verbatim>\<open>float(s)\<close> raises \<^verbatim>\<open>ValueError\<close> on text that is no numeral.\<close>

definition py_float :: "'f float_ops \<Rightarrow> string \<Rightarrow> error + 'f" where
  "py_float P s = (case parse_float s of None \<Rightarrow> Inl ValueError | Some l \<Rightarrow> Inr (of_literal P l))"


section \<open>Computed fields: \<^verbatim>\<open>compute_numeric_fields\<close>\<close>

text \<open>
  \<^verbatim>\<open>to_float\<close> tries \<^verbatim>\<open>float(str(x).replace(",", "").strip())\<close> and returns
  \<^verbatim>\<open>0.0\<close> when that raises. Its result type keeps the error branch, so that "it never
  raises" is a statement about the function.
\<close>

definition to_float :: "'f float_ops \<Rightarrow> 'f pyval \<Rightarrow> error + 'f" where
  "to_float P x =
     (case py_float P (strip (replace_commas (py_str P x))) of
        Inl e \<Rightarrow> Inr (fzero P)
      | Inr v \<Rightarrow> Inr v)"

definition bind :: "error + 'a \<Rightarrow> ('a \<Rightarrow> error + 'b) \<Rightarrow> error + 'b" where
  "bind m f = (case m of Inl e \<Rightarrow> Inl e | Inr v \<Rightarrow> f v)"

text \<open>The body of the loop over the rows, for one row.\<close>

definition compute_row :: "'f float_ops \<Rightarrow> 'f row \<Rightarrow> error + 'f row" where
  "compute_row P row =
     bind (to_float P (get row ''material_moved_m3'')) (\<lambda>m3.
     bind (to_float P (get row ''gold_grams'')) (\<lambda>g.
     bind (to_float P (get row ''gold_price_usd_per_g'')) (\<lambda>gold_price.
     bind (to_float P (get row ''diesel_cost_usd'')) (\<lambda>diesel_cost.
     bind (to_float P (get row ''labour_cost_usd'')) (\<lambda>labour_cost.
     bind (to_float P (get row ''other_cost_usd'')) (\<lambda>other_cost.
     bind (if gt0 P m3 then py_div P g m3 else Inr (fzero P)) (\<lambda>avg_grade.
       let revenue = fmul P g gold_price;
           total_cost = fadd P (fadd P diesel_cost labour_cost) other_cost;
           profit = fsub P revenue total_cost;
           row1 = setitem row ''avg_grade_g_per_m3'' (PyFloat (fround P avg_grade 3));
           row2 = setitem row1 ''revenue_usd'' (PyFloat (fround P revenue 2));
           row3 = setitem row2 ''total_cost_usd'' (PyFloat (fround P total_cost 2));
           row4 = setitem row3 ''profit_usd'' (PyFloat (fround P profit 2))
       in Inr row4)))))))"

fun compute_numeric_fields :: "'f float_ops \<Rightarrow> 'f row list \<Rightarrow> error + 'f row list" where
  "compute_numeric_fields P [] = Inr []"
| "compute_numeric_fields P (row # rows) =
     bind (compute_row P row) (\<lambda>row'.
     bind (compute_numeric_fields P rows) (\<lambda>rows'. Inr (row' # rows')))"


section \<open>Grouping: \<^verbatim>\<open>build_dashboard_json\<close>\<close>

text \<open>
  The dictionary stored under a line has four fixed keys: a record. \<^verbatim>\<open>by_line\<close> is a
  dictionary from the line's identifier to it, and the dashboard lists its values in
  insertion order.
\<close>

record 'f line =
  line_id :: "'f pyval"
  line_name :: "'f pyval"
  location :: "'f pyval"
  records :: "'f row list"

record 'f dashboard =
  lines :: "'f line list"

definition row_lid :: "'f row \<Rightarrow> 'f pyval" where
  "row_lid r = get_default r ''line_id'' (PyStr ''UNKNOWN'')"

definition new_line :: "'f row \<Rightarrow> 'f line" where
  "new_line r =
     \<lparr>line_id = row_lid r,
      line_name = get_default r ''line_name'' (PyStr ''''),
      location = get_default r ''location'' (PyStr ''''),
      records = []\<rparr>"

text \<open>One turn of the loop: create the line if its key is new, then append the row.\<close>

definition group_step :: "('f pyval, 'f line) dict \<Rightarrow> 'f row \<Rightarrow> ('f pyval, 'f line) dict" where
  "group_step by_line r =
     (let lid = row_lid r;
          by_line1 = (if lid \<notin> set (keys by_line) then setitem by_line lid (new_line r)
                      else by_line)
      in AList.map_entry lid (\<lambda>l. l\<lparr>records := records l @ [r]\<rparr>) by_line1)"

definition build_dashboard_json :: "'f row list \<Rightarrow> 'f dashboard" where
  "build_dashboard_json rows = \<lparr>lines = dict_values (foldl group_step [] rows)\<rparr>"

section \<open>Notions the specification speaks of\<close>

text \<open>
  First-encounter order: the elements of a list in the order of their first occurrence,
  each of them once.
\<close>

primrec first_occurrences :: "'a list \<Rightarrow> 'a list" where
  "first_occurrences [] = []"
| "first_occurrences (x # xs) = x # removeAll x (first_occurrences xs)"


text \<open>
  The numeric coercion \<open>to_number\<close>: strip the text, remove the commas, read it as a
  decimal numeral; text that is no numeral counts as \<^verbatim>\<open>0.0\<close>.
\<close>

definition to_number :: "'f float_ops \<Rightarrow> 'f pyval \<Rightarrow> 'f" where
  "to_number P v =
     (case parse_float (strip (replace_commas (py_str P v))) of
        None \<Rightarrow> fzero P
      | Some l \<Rightarrow> of_literal P l)"

text \<open>
  The four derived quantities of a record, before rounding: the ratio of mass to volume,
  or zero when the volume is not positive; mass times unit price; the sum of the three
  costs; revenue minus total cost.
\<close>

definition avg_grade :: "'f float_ops \<Rightarrow> 'f row \<Rightarrow> 'f" where
  "avg_grade P row =
     (if gt0 P (to_number P (get row ''material_moved_m3''))
      then fdiv P (to_number P (get row ''gold_grams''))
                  (to_number P (get row ''material_moved_m3''))
      else fzero P)"

definition revenue :: "'f float_ops \<Rightarrow> 'f row \<Rightarrow> 'f" where
  "revenue P row =
     fmul P (to_number P (get row ''gold_grams''))
            (to_number P (get row ''gold_price_usd_per_g''))"

definition total_cost :: "'f float_ops \<Rightarrow> 'f row \<Rightarrow> 'f" where
  "total_cost P row =
     fadd P (fadd P (to_number P (get row ''diesel_cost_usd''))
                    (to_number P (get row ''labour_cost_usd'')))
            (to_number P (get row ''other_cost_usd''))"

definition profit :: "'f float_ops \<Rightarrow> 'f row \<Rightarrow> 'f" where
  "profit P row = fsub P (revenue P row) (total_cost P row)"

definition derived_keys :: "string list" where
  "derived_keys = [''avg_grade_g_per_m3'', ''revenue_usd'', ''total_cost_usd'', ''profit_usd'']"


section \<open>An instance of the float operations\<close>

text \<open>
  Exact rational arithmetic with two infinities and one NaN. It is not binary64 (it never
  rounds a sum or a product); it serves to run the definitions above on concrete rows.
  Every general theorem below holds for all float operations, these and binary64 alike.
\<close>

datatype xfloat = Fin rat | Inf bool | Nan

fun x_of_literal :: "fliteral \<Rightarrow> xfloat" where
  "x_of_literal (Dec neg q) = Fin (if neg then - q else q)"
| "x_of_literal (Infinity neg) = Inf neg"
| "x_of_literal (NaN neg) = Nan"

fun x_class :: "xfloat \<Rightarrow> fclass" where
  "x_class (Fin q) = (if q < 0 then Negative else if q = 0 then Zero else Positive)"
| "x_class (Inf neg) = (if neg then Negative else Positive)"
| "x_class Nan = NotANumber"

fun x_neg :: "xfloat \<Rightarrow> xfloat" where
  "x_neg (Fin q) = Fin (- q)"
| "x_neg (Inf neg) = Inf (\<not> neg)"
| "x_neg Nan = Nan"

fun x_add :: "xfloat \<Rightarrow> xfloat \<Rightarrow> xfloat" where
  "x_add (Fin a) (Fin b) = Fin (a + b)"
| "x_add (Fin a) (Inf t) = Inf t"
| "x_add (Inf s) (Fin b) = Inf s"
| "x_add (Inf s) (Inf t) = (if s = t then Inf s else Nan)"
| "x_add _ _ = Nan"

fun x_mul :: "xfloat \<Rightarrow> xfloat \<Rightarrow> xfloat" where
  "x_mul (Fin a) (Fin b) = Fin (a * b)"
| "x_mul (Fin a) (Inf t) = (if a = 0 then Nan else Inf (t \<noteq> (a < 0)))"
| "x_mul (Inf s) (Fin b) = (if b = 0 then Nan else Inf (s \<noteq> (b < 0)))"
| "x_mul (Inf s) (Inf t) = Inf (s \<noteq> t)"
| "x_mul _ _ = Nan"

fun x_div :: "xfloat \<Rightarrow> xfloat \<Rightarrow> xfloat" where
  "x_div (Fin a) (Fin b) = Fin (a / b)"
| "x_div (Fin a) (Inf t) = Fin 0"
| "x_div (Inf s) (Fin b) = Inf (s \<noteq> (b < 0))"
| "x_div _ _ = Nan"

definition round_half_even :: "rat \<Rightarrow> int" where
  "round_half_even q =
     (let f = \<lfloor>q\<rfloor>; d = q - of_int f
      in if d < 1 / 2 then f else if 1 / 2 < d then f + 1 else if even f then f else f + 1)"

fun x_round :: "xfloat \<Rightarrow> nat \<Rightarrow> xfloat" where
  "x_round (Fin q) n = Fin (of_int (round_half_even (q * 10 ^ n)) / 10 ^ n)"
| "x_round x n = x"

function digits_of :: "nat \<Rightarrow> string" where
  "digits_of n =
     (if n < 10 then [char_of (48 + n)] else digits_of (n div 10) @ [char_of (48 + n mod 10)])"
  by pat_completeness auto
termination
  by (relation "measure (\<lambda>n. n)") auto

declare digits_of.simps [simp del]

text \<open>The text of a value: sign, integer part, point and six decimals.\<close>

definition x_repr :: "xfloat \<Rightarrow> string" where
  "x_repr x =
     (case x of
        Fin q \<Rightarrow>
          (let a = \<bar>q\<bar>; ip = nat \<lfloor>a\<rfloor>;
               fp = digits_of (nat \<lfloor>(a - of_nat ip) * 10 ^ 6\<rfloor>)
           in (if q < 0 then ''-'' else []) @ digits_of ip @ ''.''
              @ replicate (6 - length fp) (CHR ''0'') @ fp)
      | Inf neg \<Rightarrow> (if neg then ''-inf'' else ''inf'')
      | Nan \<Rightarrow> ''nan'')"

definition exact_ops :: "xfloat float_ops" where
  "exact_ops =
     \<lparr>of_literal = x_of_literal, fclass = x_class, fadd = x_add,
      fsub = (\<lambda>a b. x_add a (x_neg b)), fmul = x_mul, fdiv = x_div,
      fround = x_round, frepr = x_repr\<rparr>"


section \<open>Facts about dictionaries\<close>

lemma map_of_foldl_setitem:
  "map_of (foldl (\<lambda>d (k, v). setitem d k v) d ps) = map_of d ++ map_of (rev ps)"
  by (induction ps arbitrary: d) (auto simp: setitem_def update_conv' map_add_def fun_eq_iff split: option.splits)

lemma map_of_dict_of: "map_of (dict_of ps) = map_of (rev ps)"
  by (simp add: dict_of_def map_of_foldl_setitem)

lemma keys_foldl_setitem:
  "set (keys (foldl (\<lambda>d (k, v). setitem d k v) d ps)) = set (keys d) \<union> fst ` set ps"
proof (induction ps arbitrary: d)
  case Nil
  then show ?case by simp
next
  case (Cons p ps)
  have "set (keys (setitem d (fst p) (snd p))) = insert (fst p) (set (keys d))"
    by (simp add: setitem_def keys_def dom_update)
  with Cons.IH [of "setitem d (fst p) (snd p)"] show ?case
    by (simp add: case_prod_beta)
qed

lemma distinct_foldl_setitem:
  "distinct (keys d) \<Longrightarrow> distinct (keys (foldl (\<lambda>d (k, v). setitem d k v) d ps))"
proof (induction ps arbitrary: d)
  case Nil
  then show ?case by simp
next
  case (Cons p ps)
  from Cons.prems have "distinct (keys (setitem d (fst p) (snd p)))"
    by (simp add: setitem_def keys_def distinct_update)
  from Cons.IH [OF this] show ?case
    by (simp add: case_prod_beta)
qed

lemma set_keys_dict_of: "set (keys (dict_of ps)) = fst ` set ps"
  unfolding dict_of_def keys_foldl_setitem by (simp add: keys_def)

lemma distinct_keys_dict_of: "distinct (keys (dict_of ps))"
  unfolding dict_of_def by (rule distinct_foldl_setitem) (simp add: keys_def)

lemma map_of_rev_last:
  "i < length ps \<Longrightarrow> \<forall>j. i < j \<and> j < length ps \<longrightarrow> fst (ps ! j) \<noteq> fst (ps ! i)
   \<Longrightarrow> map_of (rev ps) (fst (ps ! i)) = Some (snd (ps ! i))"
proof (induction ps rule: rev_induct)
  case Nil
  then show ?case by simp
next
  case (snoc p ps)
  show ?case
  proof (cases "i = length ps")
    case True
    then show ?thesis by (cases p) simp
  next
    case False
    with snoc.prems have i: "i < length ps" by simp
    from snoc.prems(2) i have "fst p \<noteq> fst (ps ! i)"
      by (metis length_append_singleton lessI nth_append nth_append_length)
    moreover have "\<forall>j. i < j \<and> j < length ps \<longrightarrow> fst (ps ! j) \<noteq> fst (ps ! i)"
      using snoc.prems(2) i by (metis length_append_singleton less_SucI nth_append order.strict_trans)
    ultimately show ?thesis using snoc.IH [OF i] i by (cases p) (simp add: nth_append)
  qed
qed

section \<open>The rows of the sheet\<close>

lemma zip_take_right: "zip xs (take (length xs) ys) = zip xs ys"
proof (induction xs arbitrary: ys)
  case Nil
  then show ?case by simp
next
  case (Cons x xs)
  then show ?case by (cases ys) simp_all
qed

lemma length_row_padded: "length header \<le> length (row_padded header row)"
  by (simp add: row_padded_def)

lemma row_padded_nth:
  "i < length header \<Longrightarrow>
   row_padded header row ! i = (if i < length row then row ! i else [])"
  by (simp add: row_padded_def nth_append)

lemma fetch_sheet_values_nth:
  "j < length rest \<Longrightarrow>
   fetch_sheet_values (header # rest) ! j =
     dict_of (zip header (map PyStr (row_padded header (rest ! j))))"
  by (simp add: fetch_sheet_values_def)

lemma row_dict_keys:
  "set (keys (dict_of (zip header (map PyStr (row_padded header row))))) = set header"
proof -
  have "map fst (zip header (map PyStr (row_padded header row))) = header"
    using length_row_padded [of header row] by (simp add: map_fst_zip_take min_def)
  then have "fst ` set (zip header (map PyStr (row_padded header row))) = set header"
    by (metis set_map)
  then show ?thesis by (simp add: set_keys_dict_of)
qed

lemma row_dict_lookup:
  assumes i: "i < length header"
    and last: "\<forall>j. i < j \<and> j < length header \<longrightarrow> header ! j \<noteq> header ! i"
  shows "map_of (dict_of (zip header (map PyStr (row_padded header row))) :: 'a row) (header ! i)
         = Some (PyStr (row_padded header row ! i))"
proof -
  let ?ps = "zip header (map PyStr (row_padded header row)) :: (string \<times> 'a pyval) list"
  have len: "length ?ps = length header"
    using length_row_padded [of header row] by simp
  have nth: "\<And>j. j < length header \<Longrightarrow>
               ?ps ! j = (header ! j, PyStr (row_padded header row ! j))"
    using length_row_padded [of header row] by simp
  have 1: "i < length ?ps" using i len by simp
  have 2: "\<forall>j. i < j \<and> j < length ?ps \<longrightarrow> fst (?ps ! j) \<noteq> fst (?ps ! i)"
    using last i nth len by auto
  have "map_of (rev ?ps) (fst (?ps ! i)) = Some (snd (?ps ! i))"
    using 1 2 by (rule map_of_rev_last)
  then show ?thesis using nth [OF i] by (simp add: map_of_dict_of)
qed

text \<open>
  C5. A data row with fewer cells than the header is padded on the right with empty cells
  up to the header's length before it is paired with the header: every record of the grid
  has exactly the header's fields as its keys, the record of the short row has a value for
  every header field, and that value is the cell at the field's position, or the empty
  text where the row has no cell. (With a repeated header name the last position counts.)
\<close>

theorem short_row_padded_to_header:
  assumes j: "j < length rest" and short: "length (rest ! j) < length header"
  shows "(\<forall>r \<in> set (fetch_sheet_values (header # rest) :: 'a row list).
            set (keys r) = set header \<and> distinct (keys r))
       \<and> (\<forall>k \<in> set header.
            map_of (fetch_sheet_values (header # rest) ! j :: 'a row) k \<noteq> None)
       \<and> (\<forall>i < length header.
            (\<forall>i'. i < i' \<and> i' < length header \<longrightarrow> header ! i' \<noteq> header ! i) \<longrightarrow>
            map_of (fetch_sheet_values (header # rest) ! j :: 'a row) (header ! i)
              = Some (PyStr (if i < length (rest ! j) then rest ! j ! i else [])))"
proof (intro conjI ballI allI impI)
  fix r :: "'a row" assume "r \<in> set (fetch_sheet_values (header # rest))"
  then obtain row where r: "r = dict_of (zip header (map PyStr (row_padded header row)))"
    by (auto simp: fetch_sheet_values_def)
  show "set (keys r) = set header" unfolding r by (rule row_dict_keys)
  show "distinct (keys r)" unfolding r by (rule distinct_keys_dict_of)
next
  fix k assume "k \<in> set header"
  then have "k \<in> set (keys (fetch_sheet_values (header # rest) ! j :: 'a row))"
    using j by (simp add: fetch_sheet_values_nth row_dict_keys)
  then show "map_of (fetch_sheet_values (header # rest) ! j :: 'a row) k \<noteq> None"
    by (simp add: keys_def map_of_eq_None_iff)
next
  fix i assume i: "i < length header"
    and last: "\<forall>i'. i < i' \<and> i' < length header \<longrightarrow> header ! i' \<noteq> header ! i"
  show "map_of (fetch_sheet_values (header # rest) ! j :: 'a row) (header ! i)
        = Some (PyStr (if i < length (rest ! j) then rest ! j ! i else []))"
    using j row_dict_lookup [OF i last, of "rest ! j"] row_padded_nth [OF i, of "rest ! j"]
    by (simp add: fetch_sheet_values_nth)
qed

theorem short_row_padded_to_header_witness:
  "(0::nat) < length [[''5'']] \<and> length ([[''5'']] ! 0) < length [''gold_grams'', ''line_id'']
   \<and> map_of (fetch_sheet_values ([''gold_grams'', ''line_id''] # [[''5'']]) ! 0 :: unit row)
        ''line_id'' \<noteq> None
   \<and> (fetch_sheet_values ([''gold_grams'', ''line_id''] # [[''5'']]) :: unit row list)
       = [[(''gold_grams'', PyStr ''5''), (''line_id'', PyStr [])]]"
proof -
  have h1: "(0::nat) < length [[''5'']]" by simp
  have h2: "length ([[''5'']] ! 0) < length [''gold_grams'', ''line_id'']" by simp
  have k: "''line_id'' \<in> set [''gold_grams'', ''line_id'']" by simp
  have a: "map_of (fetch_sheet_values ([''gold_grams'', ''line_id''] # [[''5'']]) ! 0 :: unit row)
        ''line_id'' \<noteq> None"
    by (rule short_row_padded_to_header
          [OF h1 h2, where 'a = unit, THEN conjunct2, THEN conjunct1, THEN bspec, OF k])
  have b: "fetch_sheet_values ([''gold_grams'', ''line_id''] # [[''5'']])
        = [[(''gold_grams'', PyStr ''5''), (''line_id'', PyStr [])] :: unit row]"
    by (simp add: fetch_sheet_values_def row_padded_def dict_of_def setitem_def)
  show ?thesis by (rule conjI [OF h1 conjI [OF h2 conjI [OF a b]]])
qed

text \<open>
  C6. A data row with more cells than the header: pairing stops at the header's length.
  The record is the one of the row cut to the header's length, so no cell beyond it has any
  effect; its keys are the header's fields, it has no more entries than the header has
  cells, and each field holds the cell at its position.
\<close>

theorem long_row_extra_cells_ignored:
  assumes j: "j < length rest" and long: "length header < length (rest ! j)"
  shows "fetch_sheet_values (header # rest) ! j
           = (fetch_sheet_values (header # rest[j := take (length header) (rest ! j)]) ! j
               :: 'a row)
       \<and> set (keys (fetch_sheet_values (header # rest) ! j :: 'a row)) = set header
       \<and> length (fetch_sheet_values (header # rest) ! j :: 'a row) \<le> length header
       \<and> (\<forall>i < length header.
            (\<forall>i'. i < i' \<and> i' < length header \<longrightarrow> header ! i' \<noteq> header ! i) \<longrightarrow>
            map_of (fetch_sheet_values (header # rest) ! j :: 'a row) (header ! i)
              = Some (PyStr (rest ! j ! i)))"
proof (intro conjI allI impI)
  have pad: "row_padded header (rest ! j) = rest ! j"
    using long by (simp add: row_padded_def)
  have pad': "row_padded header (take (length header) (rest ! j))
              = take (length header) (rest ! j)"
    using long by (simp add: row_padded_def)
  have "zip header (map PyStr (rest ! j))
        = (zip header (map PyStr (take (length header) (rest ! j))) :: (string \<times> 'a pyval) list)"
    by (metis take_map zip_take_right)
  then show "fetch_sheet_values (header # rest) ! j
           = (fetch_sheet_values (header # rest[j := take (length header) (rest ! j)]) ! j
               :: 'a row)"
    using j by (simp add: fetch_sheet_values_nth pad pad')
  show "set (keys (fetch_sheet_values (header # rest) ! j :: 'a row)) = set header"
    using j by (simp add: fetch_sheet_values_nth row_dict_keys)
  have "distinct (keys (fetch_sheet_values (header # rest) ! j :: 'a row))"
    using j by (simp add: fetch_sheet_values_nth distinct_keys_dict_of)
  then have "length (keys (fetch_sheet_values (header # rest) ! j :: 'a row))
             = card (set (keys (fetch_sheet_values (header # rest) ! j :: 'a row)))"
    by (simp add: distinct_card)
  also have "\<dots> = card (set header)"
    using j by (simp add: fetch_sheet_values_nth row_dict_keys)
  also have "\<dots> \<le> length header" by (rule card_length)
  finally show "length (fetch_sheet_values (header # rest) ! j :: 'a row) \<le> length header"
    by (simp add: keys_def)
next
  fix i assume i: "i < length header"
    and last: "\<forall>i'. i < i' \<and> i' < length header \<longrightarrow> header ! i' \<noteq> header ! i"
  show "map_of (fetch_sheet_values (header # rest) ! j :: 'a row) (header ! i)
        = Some (PyStr (rest ! j ! i))"
    using j long row_dict_lookup [OF i last, of "rest ! j"] row_padded_nth [OF i, of "rest ! j"] i
    by (simp add: fetch_sheet_values_nth)
qed

theorem long_row_extra_cells_ignored_witness:
  "(0::nat) < length [[''L1'', ''5'', ''junk'']]
   \<and> length [''line_id'', ''gold_grams''] < length ([[''L1'', ''5'', ''junk'']] ! 0)
   \<and> length (fetch_sheet_values ([''line_id'', ''gold_grams''] # [[''L1'', ''5'', ''junk'']]) ! 0
        :: unit row) \<le> length [''line_id'', ''gold_grams'']
   \<and> (fetch_sheet_values ([''line_id'', ''gold_grams''] # [[''L1'', ''5'', ''junk'']]) :: unit row list)
       = [[(''line_id'', PyStr ''L1''), (''gold_grams'', PyStr ''5'')]]"
proof -
  have h1: "(0::nat) < length [[''L1'', ''5'', ''junk'']]" by simp
  have h2: "length [''line_id'', ''gold_grams''] < length ([[''L1'', ''5'', ''junk'']] ! 0)"
    by simp
  have "fetch_sheet_values ([''line_id'', ''gold_grams''] # [[''L1'', ''5'', ''junk'']])
        = [[(''line_id'', PyStr ''L1''), (''gold_grams'', PyStr ''5'')] :: unit row]"
    by (simp add: fetch_sheet_values_def row_padded_def dict_of_def setitem_def)
  with long_row_extra_cells_ignored [OF h1 h2, where 'a = unit] h1 h2
  show ?thesis by blast
qed

section \<open>The grouping loop\<close>

lemma set_first_occurrences: "set (first_occurrences xs) = set xs"
  by (induction xs) auto

lemma distinct_first_occurrences: "distinct (first_occurrences xs)"
  by (induction xs) (auto simp: set_first_occurrences distinct_removeAll)

lemma first_occurrences_snoc:
  "first_occurrences (xs @ [x]) =
     (if x \<in> set xs then first_occurrences xs else first_occurrences xs @ [x])"
  by (induction xs) (auto simp: set_first_occurrences)

lemma find_snoc:
  "List.find P (xs @ [x]) =
     (case List.find P xs of Some y \<Rightarrow> Some y | None \<Rightarrow> if P x then Some x else None)"
  by (induction xs) auto

lemma update_absent: "k \<notin> fst ` set al \<Longrightarrow> AList.update k v al = al @ [(k, v)]"
  by (induction al) auto

lemma map_entry_absent: "k \<notin> fst ` set al \<Longrightarrow> AList.map_entry k f al = al"
  by (induction al) auto

lemma map_entry_snoc:
  "k \<notin> fst ` set al \<Longrightarrow> AList.map_entry k f (al @ [(k, v)]) = al @ [(k, f v)]"
  by (induction al) auto

lemma map_entry_distinct:
  "distinct (map fst al) \<Longrightarrow>
   AList.map_entry k f al = map (\<lambda>p. (fst p, if fst p = k then f (snd p) else snd p)) al"
proof (induction al)
  case Nil
  then show ?case by simp
next
  case (Cons p al)
  show ?case
  proof (cases "fst p = k")
    case True
    with Cons.prems have "k \<notin> fst ` set al" by auto
    then have "map (\<lambda>p. (fst p, if fst p = k then f (snd p) else snd p)) al = al"
      by (induction al) auto
    with True show ?thesis by simp
  next
    case False
    with Cons show ?thesis by simp
  qed
qed

lemma mset_records_map_entry:
  "k \<in> fst ` set al \<Longrightarrow>
   mset (concat (map (\<lambda>p. records (snd p))
          (AList.map_entry k (\<lambda>l. l\<lparr>records := records l @ [r]\<rparr>) al)))
   = add_mset r (mset (concat (map (\<lambda>p. records (snd p)) al)))"
  by (induction al) auto

text \<open>
  What the loop has built after the rows \<open>rows\<close>: the keys are the identifiers in the
  order of their first occurrence; the line under a key was created from the first row
  with that identifier and holds the rows with that identifier, in order; the rows of all
  lines together are the rows read.
\<close>

lemma group_loop:
  "keys (foldl group_step [] rows) = first_occurrences (map row_lid rows)
   \<and> (\<forall>p \<in> set (foldl group_step [] rows).
        \<exists>r0. List.find (\<lambda>r. row_lid r = fst p) rows = Some r0
           \<and> snd p = (new_line r0)\<lparr>records := filter (\<lambda>r. row_lid r = fst p) rows\<rparr>)
   \<and> mset (concat (map (\<lambda>p. records (snd p)) (foldl group_step [] rows))) = mset rows"
proof (induction rows rule: rev_induct)
  case Nil
  then show ?case by (simp add: keys_def)
next
  case (snoc r rows)
  let ?bl = "foldl group_step [] rows"
  let ?lid = "row_lid r"
  let ?app = "\<lambda>l::'a line. l\<lparr>records := records l @ [r]\<rparr>"
  from snoc.IH have ks: "keys ?bl = first_occurrences (map row_lid rows)"
    and ent: "\<And>p. p \<in> set ?bl \<Longrightarrow>
        \<exists>r0. List.find (\<lambda>r. row_lid r = fst p) rows = Some r0
           \<and> snd p = (new_line r0)\<lparr>records := filter (\<lambda>r. row_lid r = fst p) rows\<rparr>"
    and ms: "mset (concat (map (\<lambda>p. records (snd p)) ?bl)) = mset rows"
    by blast+
  have dist: "distinct (map fst ?bl)"
    using ks distinct_first_occurrences [of "map row_lid rows"] by (simp add: keys_def)
  have setks: "fst ` set ?bl = row_lid ` set rows"
    using ks set_first_occurrences [of "map row_lid rows"] by (metis keys_def set_map)
  show ?case
  proof (cases "?lid \<in> row_lid ` set rows")
    case False
    then have absent: "?lid \<notin> fst ` set ?bl" using setks by simp
    have step: "group_step ?bl r = ?bl @ [(?lid, ?app (new_line r))]"
      using absent
      by (simp add: group_step_def Let_def keys_def setitem_def update_absent map_entry_snoc)
    have fresh: "\<And>x. x \<in> set rows \<Longrightarrow> row_lid x \<noteq> ?lid"
      using False by (metis imageI)
    have none: "List.find (\<lambda>r'. row_lid r' = ?lid) rows = None"
      using fresh by (simp add: find_None_iff)
    have nofilter: "filter (\<lambda>r'. row_lid r' = ?lid) rows = []"
      using fresh by (simp add: filter_empty_conv)
    have "keys (foldl group_step [] (rows @ [r])) = first_occurrences (map row_lid (rows @ [r]))"
      using False ks by (simp add: step first_occurrences_snoc keys_def)
    moreover have "\<forall>p \<in> set (foldl group_step [] (rows @ [r])).
        \<exists>r0. List.find (\<lambda>r. row_lid r = fst p) (rows @ [r]) = Some r0
           \<and> snd p = (new_line r0)\<lparr>records := filter (\<lambda>r. row_lid r = fst p) (rows @ [r])\<rparr>"
    proof
      fix p assume "p \<in> set (foldl group_step [] (rows @ [r]))"
      then consider "p \<in> set ?bl" | "p = (?lid, ?app (new_line r))"
        by (auto simp: step)
      then show "\<exists>r0. List.find (\<lambda>r. row_lid r = fst p) (rows @ [r]) = Some r0
           \<and> snd p = (new_line r0)\<lparr>records := filter (\<lambda>r. row_lid r = fst p) (rows @ [r])\<rparr>"
      proof cases
        case 1
        then have ne: "fst p \<noteq> ?lid" using absent by (metis imageI)
        from ent [OF 1] obtain r0 where
          "List.find (\<lambda>r. row_lid r = fst p) rows = Some r0"
          "snd p = (new_line r0)\<lparr>records := filter (\<lambda>r. row_lid r = fst p) rows\<rparr>"
          by blast
        with ne show ?thesis by (auto simp: find_snoc)
      next
        case 2
        then show ?thesis
          using none nofilter by (simp add: find_snoc new_line_def)
      qed
    qed
    moreover have "mset (concat (map (\<lambda>p. records (snd p)) (foldl group_step [] (rows @ [r]))))
                   = mset (rows @ [r])"
      using ms by (simp add: step new_line_def)
    ultimately show ?thesis by blast
  next
    case True
    then have present: "?lid \<in> fst ` set ?bl" using setks by simp
    have step: "group_step ?bl r = AList.map_entry ?lid ?app ?bl"
      using present by (simp add: group_step_def Let_def keys_def)
    have step': "group_step ?bl r
                 = map (\<lambda>p. (fst p, if fst p = ?lid then ?app (snd p) else snd p)) ?bl"
      unfolding step by (rule map_entry_distinct [OF dist])
    have "keys (foldl group_step [] (rows @ [r])) = first_occurrences (map row_lid (rows @ [r]))"
      using True ks by (simp add: step' first_occurrences_snoc keys_def comp_def)
    moreover have "\<forall>p \<in> set (foldl group_step [] (rows @ [r])).
        \<exists>r0. List.find (\<lambda>r. row_lid r = fst p) (rows @ [r]) = Some r0
           \<and> snd p = (new_line r0)\<lparr>records := filter (\<lambda>r. row_lid r = fst p) (rows @ [r])\<rparr>"
    proof
      fix p assume "p \<in> set (foldl group_step [] (rows @ [r]))"
      then obtain q where q: "q \<in> set ?bl"
        and p: "p = (fst q, if fst q = ?lid then ?app (snd q) else snd q)"
        by (auto simp: step')
      from ent [OF q] obtain r0 where
        "List.find (\<lambda>r. row_lid r = fst q) rows = Some r0"
        "snd q = (new_line r0)\<lparr>records := filter (\<lambda>r. row_lid r = fst q) rows\<rparr>"
        by blast
      then show "\<exists>r0. List.find (\<lambda>r. row_lid r = fst p) (rows @ [r]) = Some r0
           \<and> snd p = (new_line r0)\<lparr>records := filter (\<lambda>r. row_lid r = fst p) (rows @ [r])\<rparr>"
        by (auto simp: p find_snoc)
    qed
    moreover have "mset (concat (map (\<lambda>p. records (snd p)) (foldl group_step [] (rows @ [r]))))
                   = mset (rows @ [r])"
      using ms present by (simp add: step mset_records_map_entry)
    ultimately show ?thesis by blast
  qed
qed

section \<open>The lines of the dashboard\<close>

lemma lines_build: "lines (build_dashboard_json rows) = map snd (foldl group_step [] rows)"
  by (simp add: build_dashboard_json_def dict_values_def)

lemma line_of_rows:
  assumes "g \<in> set (lines (build_dashboard_json rows))"
  shows "\<exists>r0. List.find (\<lambda>r. row_lid r = line_id g) rows = Some r0
            \<and> g = (new_line r0)\<lparr>records := filter (\<lambda>r. row_lid r = line_id g) rows\<rparr>"
proof -
  from assms obtain p where p: "p \<in> set (foldl group_step [] rows)" and g: "g = snd p"
    by (auto simp: lines_build)
  with group_loop [of rows] obtain r0 where
    f: "List.find (\<lambda>r. row_lid r = fst p) rows = Some r0"
    and s: "snd p = (new_line r0)\<lparr>records := filter (\<lambda>r. row_lid r = fst p) rows\<rparr>"
    by blast
  from f have "row_lid r0 = fst p" by (auto simp: find_Some_iff)
  then have "line_id g = fst p" using s g by (simp add: new_line_def)
  with f s g show ?thesis by simp
qed

lemma line_ids: "map line_id (lines (build_dashboard_json rows)) = first_occurrences (map row_lid rows)"
proof -
  have "\<And>p. p \<in> set (foldl group_step [] rows) \<Longrightarrow> line_id (snd p) = fst p"
  proof -
    fix p assume p: "p \<in> set (foldl group_step [] rows)"
    with group_loop [of rows] obtain r0 where
      f: "List.find (\<lambda>r. row_lid r = fst p) rows = Some r0"
      and s: "snd p = (new_line r0)\<lparr>records := filter (\<lambda>r. row_lid r = fst p) rows\<rparr>"
      by blast
    from f have "row_lid r0 = fst p" by (auto simp: find_Some_iff)
    then show "line_id (snd p) = fst p" using s by (simp add: new_line_def)
  qed
  then have "map line_id (map snd (foldl group_step [] rows)) = map fst (foldl group_step [] rows)"
    by simp
  with group_loop [of rows] show ?thesis by (simp add: lines_build keys_def)
qed

lemma line_records:
  "g \<in> set (lines (build_dashboard_json rows)) \<Longrightarrow>
   records g = filter (\<lambda>r. row_lid r = line_id g) rows"
proof -
  assume "g \<in> set (lines (build_dashboard_json rows))"
  from line_of_rows [OF this] obtain r0 where
    "g = (new_line r0)\<lparr>records := filter (\<lambda>r. row_lid r = line_id g) rows\<rparr>" by blast
  then have "records g = records ((new_line r0)\<lparr>records := filter (\<lambda>r. row_lid r = line_id g) rows\<rparr>)"
    by simp
  then show ?thesis by simp
qed

lemma distinct_line_ids: "distinct (map line_id (lines (build_dashboard_json rows)))"
  by (simp add: line_ids distinct_first_occurrences)

lemma line_unique:
  assumes "g \<in> set (lines (build_dashboard_json rows))"
    and "g' \<in> set (lines (build_dashboard_json rows))"
    and "line_id g = line_id g'"
  shows "g = g'"
  using assms distinct_line_ids [of rows] by (auto simp: distinct_map dest: inj_onD)

lemma row_in_its_line:
  assumes "r \<in> set rows"
  shows "\<exists>g \<in> set (lines (build_dashboard_json rows)). line_id g = row_lid r \<and> r \<in> set (records g)"
proof -
  from assms have "row_lid r \<in> set (first_occurrences (map row_lid rows))"
    by (simp add: set_first_occurrences)
  then have "row_lid r \<in> set (map line_id (lines (build_dashboard_json rows)))"
    by (simp only: line_ids)
  then obtain g where g: "g \<in> set (lines (build_dashboard_json rows))" "line_id g = row_lid r"
    by auto
  with assms line_records [OF g(1)] show ?thesis by auto
qed

lemma line_of_member:
  "g \<in> set (lines (build_dashboard_json rows)) \<Longrightarrow> r \<in> set (records g) \<Longrightarrow> line_id g = row_lid r"
  by (simp add: line_records)

text \<open>
  C3. Grouping is a partition of the rows: the lengths of the lines' record lists add up to
  the number of rows; the records of all lines together are the rows, each as often as it
  was read; the lines have different identifiers; and every row is in the record list of
  exactly one line.
\<close>

theorem grouping_is_partition:
  "sum_list (map (\<lambda>g. length (records g)) (lines (build_dashboard_json rows))) = length rows
   \<and> mset (concat (map records (lines (build_dashboard_json rows)))) = mset rows
   \<and> distinct (map line_id (lines (build_dashboard_json rows)))
   \<and> (\<forall>r \<in> set rows. \<exists>!g. g \<in> set (lines (build_dashboard_json rows)) \<and> r \<in> set (records g))"
proof (intro conjI ballI)
  have ms: "mset (concat (map records (lines (build_dashboard_json rows)))) = mset rows"
    using group_loop [of rows] by (simp add: lines_build comp_def)
  then show "mset (concat (map records (lines (build_dashboard_json rows)))) = mset rows" .
  have "length (concat (map records (lines (build_dashboard_json rows)))) = length rows"
    using ms by (metis size_mset)
  then show "sum_list (map (\<lambda>g. length (records g)) (lines (build_dashboard_json rows))) = length rows"
    by (simp add: length_concat comp_def)
  show "distinct (map line_id (lines (build_dashboard_json rows)))"
    by (rule distinct_line_ids)
next
  fix r assume r: "r \<in> set rows"
  from row_in_its_line [OF r] obtain g where
    g: "g \<in> set (lines (build_dashboard_json rows))" "line_id g = row_lid r" "r \<in> set (records g)"
    by blast
  show "\<exists>!g. g \<in> set (lines (build_dashboard_json rows)) \<and> r \<in> set (records g)"
  proof (rule ex1I [of _ g])
    show "g \<in> set (lines (build_dashboard_json rows)) \<and> r \<in> set (records g)"
      using g by simp
  next
    fix g' assume g': "g' \<in> set (lines (build_dashboard_json rows)) \<and> r \<in> set (records g')"
    then have "line_id g' = row_lid r" using line_of_member [of g' rows r] by blast
    with g g' show "g' = g" using line_unique [of g' rows g] by simp
  qed
qed

text \<open>
  C4. The lines appear in the order in which their identifiers are first met in the rows.
  The name and the location of a line are read from the first row with its identifier,
  whatever later rows of that line hold, and the records of a line are its rows in the
  order of the input.
\<close>

theorem lines_in_first_encounter_order:
  "map line_id (lines (build_dashboard_json rows)) = first_occurrences (map row_lid rows)
   \<and> (\<forall>g \<in> set (lines (build_dashboard_json rows)).
        \<exists>r0. List.find (\<lambda>r. row_lid r = line_id g) rows = Some r0
           \<and> line_name g = get_default r0 ''line_name'' (PyStr [])
           \<and> location g = get_default r0 ''location'' (PyStr [])
           \<and> records g = filter (\<lambda>r. row_lid r = line_id g) rows)"
proof (intro conjI ballI)
  show "map line_id (lines (build_dashboard_json rows)) = first_occurrences (map row_lid rows)"
    by (rule line_ids)
next
  fix g assume g: "g \<in> set (lines (build_dashboard_json rows))"
  from line_of_rows [OF g] obtain r0 where
    f: "List.find (\<lambda>r. row_lid r = line_id g) rows = Some r0"
    and e: "g = (new_line r0)\<lparr>records := filter (\<lambda>r. row_lid r = line_id g) rows\<rparr>"
    by blast
  have "line_name g = line_name ((new_line r0)\<lparr>records := filter (\<lambda>r. row_lid r = line_id g) rows\<rparr>)"
    using e by simp
  then have n: "line_name g = get_default r0 ''line_name'' (PyStr [])"
    by (simp add: new_line_def)
  have "location g = location ((new_line r0)\<lparr>records := filter (\<lambda>r. row_lid r = line_id g) rows\<rparr>)"
    using e by simp
  then have l: "location g = get_default r0 ''location'' (PyStr [])"
    by (simp add: new_line_def)
  from f n l line_records [OF g]
  show "\<exists>r0. List.find (\<lambda>r. row_lid r = line_id g) rows = Some r0
           \<and> line_name g = get_default r0 ''line_name'' (PyStr [])
           \<and> location g = get_default r0 ''location'' (PyStr [])
           \<and> records g = filter (\<lambda>r. row_lid r = line_id g) rows"
    by blast
qed

section \<open>A run of the grouping on three rows\<close>

lemma build_example:
  "lines (build_dashboard_json
     [[(''line_id'', PyStr ''L2''), (''line_name'', PyStr ''North'')],
      [(''line_id'', PyStr ''L1''), (''line_name'', PyStr ''South'')],
      [(''line_id'', PyStr ''L2''), (''line_name'', PyStr ''Renamed'')]])
   = [\<lparr>line_id = PyStr ''L2'', line_name = PyStr ''North'', location = PyStr [],
        records = [[(''line_id'', PyStr ''L2''), (''line_name'', PyStr ''North'')],
                   [(''line_id'', PyStr ''L2''), (''line_name'', PyStr ''Renamed'')]]\<rparr>,
      \<lparr>line_id = PyStr ''L1'', line_name = PyStr ''South'', location = PyStr [],
        records = [[(''line_id'', PyStr ''L1''), (''line_name'', PyStr ''South'')]]\<rparr> :: unit line]"
  by code_simp

theorem grouping_is_partition_witness:
  "sum_list (map (\<lambda>g. length (records g)) (lines (build_dashboard_json [[(''line_id'', PyStr ''L2''), (''line_name'', PyStr ''North'')],
          [(''line_id'', PyStr ''L1''), (''line_name'', PyStr ''South'')],
          [(''line_id'', PyStr ''L2''), (''line_name'', PyStr ''Renamed'') :: string \<times> unit pyval]]))) = length [[(''line_id'', PyStr ''L2''), (''line_name'', PyStr ''North'')],
          [(''line_id'', PyStr ''L1''), (''line_name'', PyStr ''South'')],
          [(''line_id'', PyStr ''L2''), (''line_name'', PyStr ''Renamed'') :: string \<times> unit pyval]]
   \<and> (\<exists>!g. g \<in> set (lines (build_dashboard_json [[(''line_id'', PyStr ''L2''), (''line_name'', PyStr ''North'')],
          [(''line_id'', PyStr ''L1''), (''line_name'', PyStr ''South'')],
          [(''line_id'', PyStr ''L2''), (''line_name'', PyStr ''Renamed'') :: string \<times> unit pyval]])) \<and> hd [[(''line_id'', PyStr ''L2''), (''line_name'', PyStr ''North'')],
          [(''line_id'', PyStr ''L1''), (''line_name'', PyStr ''South'')],
          [(''line_id'', PyStr ''L2''), (''line_name'', PyStr ''Renamed'') :: string \<times> unit pyval]] \<in> set (records g))
   \<and> map (\<lambda>g. length (records g)) (lines (build_dashboard_json [[(''line_id'', PyStr ''L2''), (''line_name'', PyStr ''North'')],
          [(''line_id'', PyStr ''L1''), (''line_name'', PyStr ''South'')],
          [(''line_id'', PyStr ''L2''), (''line_name'', PyStr ''Renamed'') :: string \<times> unit pyval]])) = [2, 1]"
proof -
  let ?rows = "[[(''line_id'', PyStr ''L2''), (''line_name'', PyStr ''North'')],
          [(''line_id'', PyStr ''L1''), (''line_name'', PyStr ''South'')],
          [(''line_id'', PyStr ''L2''), (''line_name'', PyStr ''Renamed'') :: string \<times> unit pyval]]"
  have m: "hd ?rows \<in> set ?rows" by simp
  have s: "sum_list (map (\<lambda>g. length (records g)) (lines (build_dashboard_json ?rows)))
           = length ?rows"
    by (rule grouping_is_partition [of ?rows, THEN conjunct1])
  have a: "\<exists>!g. g \<in> set (lines (build_dashboard_json ?rows)) \<and> hd ?rows \<in> set (records g)"
    by (rule grouping_is_partition
          [of ?rows, THEN conjunct2, THEN conjunct2, THEN conjunct2, THEN bspec, OF m])
  have b: "map (\<lambda>g. length (records g)) (lines (build_dashboard_json ?rows)) = [2, 1]"
    by (simp add: build_example)
  show ?thesis by (rule conjI [OF s conjI [OF a b]])
qed

theorem lines_in_first_encounter_order_witness:
  "map line_id (lines (build_dashboard_json [[(''line_id'', PyStr ''L2''), (''line_name'', PyStr ''North'')],
          [(''line_id'', PyStr ''L1''), (''line_name'', PyStr ''South'')],
          [(''line_id'', PyStr ''L2''), (''line_name'', PyStr ''Renamed'') :: string \<times> unit pyval]])) = first_occurrences (map row_lid [[(''line_id'', PyStr ''L2''), (''line_name'', PyStr ''North'')],
          [(''line_id'', PyStr ''L1''), (''line_name'', PyStr ''South'')],
          [(''line_id'', PyStr ''L2''), (''line_name'', PyStr ''Renamed'') :: string \<times> unit pyval]])
   \<and> map line_id (lines (build_dashboard_json [[(''line_id'', PyStr ''L2''), (''line_name'', PyStr ''North'')],
          [(''line_id'', PyStr ''L1''), (''line_name'', PyStr ''South'')],
          [(''line_id'', PyStr ''L2''), (''line_name'', PyStr ''Renamed'') :: string \<times> unit pyval]])) = [PyStr ''L2'', PyStr ''L1'']
   \<and> map line_name (lines (build_dashboard_json [[(''line_id'', PyStr ''L2''), (''line_name'', PyStr ''North'')],
          [(''line_id'', PyStr ''L1''), (''line_name'', PyStr ''South'')],
          [(''line_id'', PyStr ''L2''), (''line_name'', PyStr ''Renamed'') :: string \<times> unit pyval]])) = [PyStr ''North'', PyStr ''South'']
   \<and> map records (lines (build_dashboard_json [[(''line_id'', PyStr ''L2''), (''line_name'', PyStr ''North'')],
          [(''line_id'', PyStr ''L1''), (''line_name'', PyStr ''South'')],
          [(''line_id'', PyStr ''L2''), (''line_name'', PyStr ''Renamed'') :: string \<times> unit pyval]]))
       = [[[(''line_id'', PyStr ''L2''), (''line_name'', PyStr ''North'')],
           [(''line_id'', PyStr ''L2''), (''line_name'', PyStr ''Renamed'')]],
          [[(''line_id'', PyStr ''L1''), (''line_name'', PyStr ''South'')]]]"
proof -
  let ?rows = "[[(''line_id'', PyStr ''L2''), (''line_name'', PyStr ''North'')],
          [(''line_id'', PyStr ''L1''), (''line_name'', PyStr ''South'')],
          [(''line_id'', PyStr ''L2''), (''line_name'', PyStr ''Renamed'') :: string \<times> unit pyval]]"
  have a: "map line_id (lines (build_dashboard_json ?rows)) = first_occurrences (map row_lid ?rows)"
    by (rule lines_in_first_encounter_order [of ?rows, THEN conjunct1])
  have b: "map line_id (lines (build_dashboard_json ?rows)) = [PyStr ''L2'', PyStr ''L1'']
   \<and> map line_name (lines (build_dashboard_json ?rows)) = [PyStr ''North'', PyStr ''South'']
   \<and> map records (lines (build_dashboard_json ?rows))
       = [[[(''line_id'', PyStr ''L2''), (''line_name'', PyStr ''North'')],
           [(''line_id'', PyStr ''L2''), (''line_name'', PyStr ''Renamed'')]],
          [[(''line_id'', PyStr ''L1''), (''line_name'', PyStr ''South'')]]]"
    by (simp add: build_example)
  show ?thesis by (rule conjI [OF a b])
qed

section \<open>The sentinel \<^verbatim>\<open>UNKNOWN\<close>\<close>

text \<open>
  C7. The key of a row is \<^verbatim>\<open>UNKNOWN\<close> by default only when the row has no
  \<^verbatim>\<open>line_id\<close>; a value that is present is the key as it is. A row whose
  \<^verbatim>\<open>line_id\<close> is the empty text is grouped under the empty text, in a line that is
  not the line \<^verbatim>\<open>UNKNOWN\<close>; a row without \<^verbatim>\<open>line_id\<close> is in the line
  \<^verbatim>\<open>UNKNOWN\<close>.
\<close>

theorem unknown_only_when_line_id_absent:
  "(map_of r ''line_id'' = None \<longrightarrow> row_lid r = PyStr ''UNKNOWN'')
   \<and> (\<forall>v. map_of r ''line_id'' = Some v \<longrightarrow> row_lid r = v)
   \<and> (r \<in> set rows \<and> map_of r ''line_id'' = Some (PyStr []) \<longrightarrow>
        (\<exists>g \<in> set (lines (build_dashboard_json rows)). line_id g = PyStr [] \<and> r \<in> set (records g))
        \<and> (\<forall>g \<in> set (lines (build_dashboard_json rows)).
              line_id g = PyStr ''UNKNOWN'' \<longrightarrow> r \<notin> set (records g)))
   \<and> (r \<in> set rows \<and> map_of r ''line_id'' = None \<longrightarrow>
        (\<exists>g \<in> set (lines (build_dashboard_json rows)).
           line_id g = PyStr ''UNKNOWN'' \<and> r \<in> set (records g)))"
proof (intro conjI allI impI)
  show "row_lid r = PyStr ''UNKNOWN''" if "map_of r ''line_id'' = None"
    using that by (simp add: row_lid_def get_default_def)
  show "row_lid r = v" if "map_of r ''line_id'' = Some v" for v
    using that by (simp add: row_lid_def get_default_def)
next
  assume a: "r \<in> set rows \<and> map_of r ''line_id'' = Some (PyStr [])"
  then have lid: "row_lid r = PyStr []" by (simp add: row_lid_def get_default_def)
  from a row_in_its_line [of r rows] lid
  show "\<exists>g \<in> set (lines (build_dashboard_json rows)). line_id g = PyStr [] \<and> r \<in> set (records g)"
    by auto
  show "\<forall>g \<in> set (lines (build_dashboard_json rows)).
          line_id g = PyStr ''UNKNOWN'' \<longrightarrow> r \<notin> set (records g)"
  proof (intro ballI impI notI)
    fix g assume "g \<in> set (lines (build_dashboard_json rows))" "line_id g = PyStr ''UNKNOWN''"
      "r \<in> set (records g)"
    with line_of_member [of g rows r] lid show False by simp
  qed
next
  assume a: "r \<in> set rows \<and> map_of r ''line_id'' = None"
  then have lid: "row_lid r = PyStr ''UNKNOWN''" by (simp add: row_lid_def get_default_def)
  from a row_in_its_line [of r rows] lid
  show "\<exists>g \<in> set (lines (build_dashboard_json rows)).
          line_id g = PyStr ''UNKNOWN'' \<and> r \<in> set (records g)"
    by auto
qed

lemma build_example_unknown:
  "lines (build_dashboard_json
     [[(''line_id'', PyStr []), (''gold_grams'', PyStr ''5'')],
      [(''gold_grams'', PyStr ''7'')],
      [(''line_id'', PyStr ''UNKNOWN''), (''gold_grams'', PyStr ''9'')]])
   = [\<lparr>line_id = PyStr [], line_name = PyStr [], location = PyStr [],
        records = [[(''line_id'', PyStr []), (''gold_grams'', PyStr ''5'')]]\<rparr>,
      \<lparr>line_id = PyStr ''UNKNOWN'', line_name = PyStr [], location = PyStr [],
        records = [[(''gold_grams'', PyStr ''7'')],
                   [(''line_id'', PyStr ''UNKNOWN''), (''gold_grams'', PyStr ''9'')]]\<rparr> :: unit line]"
  by code_simp

theorem unknown_only_when_line_id_absent_witness:
  "(hd [[(''line_id'', PyStr []), (''gold_grams'', PyStr ''5'')],
            [(''gold_grams'', PyStr ''7'')],
            [(''line_id'', PyStr ''UNKNOWN''), (''gold_grams'', PyStr ''9'') :: string \<times> unit pyval]] \<in> set [[(''line_id'', PyStr []), (''gold_grams'', PyStr ''5'')],
            [(''gold_grams'', PyStr ''7'')],
            [(''line_id'', PyStr ''UNKNOWN''), (''gold_grams'', PyStr ''9'') :: string \<times> unit pyval]] \<and> map_of (hd [[(''line_id'', PyStr []), (''gold_grams'', PyStr ''5'')],
            [(''gold_grams'', PyStr ''7'')],
            [(''line_id'', PyStr ''UNKNOWN''), (''gold_grams'', PyStr ''9'') :: string \<times> unit pyval]]) ''line_id'' = Some (PyStr []))
   \<and> (\<exists>g \<in> set (lines (build_dashboard_json [[(''line_id'', PyStr []), (''gold_grams'', PyStr ''5'')],
            [(''gold_grams'', PyStr ''7'')],
            [(''line_id'', PyStr ''UNKNOWN''), (''gold_grams'', PyStr ''9'') :: string \<times> unit pyval]])). line_id g = PyStr [] \<and> hd [[(''line_id'', PyStr []), (''gold_grams'', PyStr ''5'')],
            [(''gold_grams'', PyStr ''7'')],
            [(''line_id'', PyStr ''UNKNOWN''), (''gold_grams'', PyStr ''9'') :: string \<times> unit pyval]] \<in> set (records g))
   \<and> hd [[(''line_id'', PyStr []), (''gold_grams'', PyStr ''5'')],
            [(''gold_grams'', PyStr ''7'')],
            [(''line_id'', PyStr ''UNKNOWN''), (''gold_grams'', PyStr ''9'') :: string \<times> unit pyval]] \<notin> set (records (lines (build_dashboard_json [[(''line_id'', PyStr []), (''gold_grams'', PyStr ''5'')],
            [(''gold_grams'', PyStr ''7'')],
            [(''line_id'', PyStr ''UNKNOWN''), (''gold_grams'', PyStr ''9'') :: string \<times> unit pyval]]) ! 1))
   \<and> map line_id (lines (build_dashboard_json [[(''line_id'', PyStr []), (''gold_grams'', PyStr ''5'')],
            [(''gold_grams'', PyStr ''7'')],
            [(''line_id'', PyStr ''UNKNOWN''), (''gold_grams'', PyStr ''9'') :: string \<times> unit pyval]])) = [PyStr [], PyStr ''UNKNOWN'']"
proof -
  let ?rows = "[[(''line_id'', PyStr []), (''gold_grams'', PyStr ''5'')],
            [(''gold_grams'', PyStr ''7'')],
            [(''line_id'', PyStr ''UNKNOWN''), (''gold_grams'', PyStr ''9'') :: string \<times> unit pyval]]"
  have h: "hd ?rows \<in> set ?rows \<and> map_of (hd ?rows) ''line_id'' = Some (PyStr [])"
    by simp
  have a: "(\<exists>g \<in> set (lines (build_dashboard_json ?rows)). line_id g = PyStr [] \<and> hd ?rows \<in> set (records g))
      \<and> (\<forall>g \<in> set (lines (build_dashboard_json ?rows)).
            line_id g = PyStr ''UNKNOWN'' \<longrightarrow> hd ?rows \<notin> set (records g))"
    by (rule unknown_only_when_line_id_absent
          [of "hd ?rows" ?rows, THEN conjunct2, THEN conjunct2, THEN conjunct1, rule_format, OF h])
  have m: "lines (build_dashboard_json ?rows) ! 1 \<in> set (lines (build_dashboard_json ?rows))"
    by (simp add: build_example_unknown)
  have u: "line_id (lines (build_dashboard_json ?rows) ! 1) = PyStr ''UNKNOWN''"
    by (simp add: build_example_unknown)
  have c: "hd ?rows \<notin> set (records (lines (build_dashboard_json ?rows) ! 1))"
    by (rule a [THEN conjunct2, THEN bspec, OF m, THEN mp, OF u])
  have b: "map line_id (lines (build_dashboard_json ?rows)) = [PyStr [], PyStr ''UNKNOWN'']"
    by (simp add: build_example_unknown)
  show ?thesis by (rule conjI [OF h conjI [OF a [THEN conjunct1] conjI [OF c b]]])
qed

text \<open>
  C10. A row whose \<^verbatim>\<open>line_id\<close> is the text \<^verbatim>\<open>UNKNOWN\<close> and a row without
  \<^verbatim>\<open>line_id\<close> have the same key and are in the same line, whose identifier is
  \<^verbatim>\<open>UNKNOWN\<close>; no other line holds either of them.
\<close>

theorem unknown_text_joins_default_line:
  assumes "r1 \<in> set rows" and "r2 \<in> set rows"
    and "map_of r1 ''line_id'' = None"
    and "map_of r2 ''line_id'' = Some (PyStr ''UNKNOWN'')"
  shows "row_lid r1 = row_lid r2
       \<and> (\<exists>g \<in> set (lines (build_dashboard_json rows)).
            line_id g = PyStr ''UNKNOWN'' \<and> r1 \<in> set (records g) \<and> r2 \<in> set (records g)
            \<and> (\<forall>g' \<in> set (lines (build_dashboard_json rows)).
                  r1 \<in> set (records g') \<or> r2 \<in> set (records g') \<longrightarrow> g' = g))"
proof -
  have l1: "row_lid r1 = PyStr ''UNKNOWN''" using assms(3) by (simp add: row_lid_def get_default_def)
  have l2: "row_lid r2 = PyStr ''UNKNOWN''" using assms(4) by (simp add: row_lid_def get_default_def)
  from row_in_its_line [OF assms(1)] l1 obtain g where
    g: "g \<in> set (lines (build_dashboard_json rows))" "line_id g = PyStr ''UNKNOWN''"
       "r1 \<in> set (records g)"
    by auto
  have r2: "r2 \<in> set (records g)"
    using assms(2) l2 g by (simp add: line_records)
  have u: "\<forall>g' \<in> set (lines (build_dashboard_json rows)).
          r1 \<in> set (records g') \<or> r2 \<in> set (records g') \<longrightarrow> g' = g"
  proof (intro ballI impI)
    fix g' assume g': "g' \<in> set (lines (build_dashboard_json rows))"
      and m: "r1 \<in> set (records g') \<or> r2 \<in> set (records g')"
    from m g' l1 l2 have "line_id g' = PyStr ''UNKNOWN''"
      using line_of_member [of g' rows r1] line_of_member [of g' rows r2] by auto
    with g g' show "g' = g" using line_unique [of g' rows g] by simp
  qed
  have same: "row_lid r1 = row_lid r2" using l1 l2 by simp
  have "\<exists>g \<in> set (lines (build_dashboard_json rows)).
            line_id g = PyStr ''UNKNOWN'' \<and> r1 \<in> set (records g) \<and> r2 \<in> set (records g)
            \<and> (\<forall>g' \<in> set (lines (build_dashboard_json rows)).
                  r1 \<in> set (records g') \<or> r2 \<in> set (records g') \<longrightarrow> g' = g)"
    by (rule bexI [OF _ g(1)]) (intro conjI g(2) g(3) r2 u)
  with same show ?thesis by (rule conjI)
qed

theorem unknown_text_joins_default_line_witness:
  "([[(''line_id'', PyStr []), (''gold_grams'', PyStr ''5'')],
            [(''gold_grams'', PyStr ''7'')],
            [(''line_id'', PyStr ''UNKNOWN''), (''gold_grams'', PyStr ''9'') :: string \<times> unit pyval]] ! 1 \<in> set [[(''line_id'', PyStr []), (''gold_grams'', PyStr ''5'')],
            [(''gold_grams'', PyStr ''7'')],
            [(''line_id'', PyStr ''UNKNOWN''), (''gold_grams'', PyStr ''9'') :: string \<times> unit pyval]] \<and> [[(''line_id'', PyStr []), (''gold_grams'', PyStr ''5'')],
            [(''gold_grams'', PyStr ''7'')],
            [(''line_id'', PyStr ''UNKNOWN''), (''gold_grams'', PyStr ''9'') :: string \<times> unit pyval]] ! 2 \<in> set [[(''line_id'', PyStr []), (''gold_grams'', PyStr ''5'')],
            [(''gold_grams'', PyStr ''7'')],
            [(''line_id'', PyStr ''UNKNOWN''), (''gold_grams'', PyStr ''9'') :: string \<times> unit pyval]]
     \<and> map_of ([[(''line_id'', PyStr []), (''gold_grams'', PyStr ''5'')],
            [(''gold_grams'', PyStr ''7'')],
            [(''line_id'', PyStr ''UNKNOWN''), (''gold_grams'', PyStr ''9'') :: string \<times> unit pyval]] ! 1) ''line_id'' = None
     \<and> map_of ([[(''line_id'', PyStr []), (''gold_grams'', PyStr ''5'')],
            [(''gold_grams'', PyStr ''7'')],
            [(''line_id'', PyStr ''UNKNOWN''), (''gold_grams'', PyStr ''9'') :: string \<times> unit pyval]] ! 2) ''line_id'' = Some (PyStr ''UNKNOWN''))
   \<and> row_lid ([[(''line_id'', PyStr []), (''gold_grams'', PyStr ''5'')],
            [(''gold_grams'', PyStr ''7'')],
            [(''line_id'', PyStr ''UNKNOWN''), (''gold_grams'', PyStr ''9'') :: string \<times> unit pyval]] ! 1) = row_lid ([[(''line_id'', PyStr []), (''gold_grams'', PyStr ''5'')],
            [(''gold_grams'', PyStr ''7'')],
            [(''line_id'', PyStr ''UNKNOWN''), (''gold_grams'', PyStr ''9'') :: string \<times> unit pyval]] ! 2)
   \<and> map (\<lambda>g. (line_id g, records g)) (lines (build_dashboard_json [[(''line_id'', PyStr []), (''gold_grams'', PyStr ''5'')],
            [(''gold_grams'', PyStr ''7'')],
            [(''line_id'', PyStr ''UNKNOWN''), (''gold_grams'', PyStr ''9'') :: string \<times> unit pyval]]))
       = [(PyStr [], [[(''line_id'', PyStr []), (''gold_grams'', PyStr ''5'')]]),
          (PyStr ''UNKNOWN'', [[(''gold_grams'', PyStr ''7'')],
                [(''line_id'', PyStr ''UNKNOWN''), (''gold_grams'', PyStr ''9'')]])]"
proof -
  let ?rows = "[[(''line_id'', PyStr []), (''gold_grams'', PyStr ''5'')],
            [(''gold_grams'', PyStr ''7'')],
            [(''line_id'', PyStr ''UNKNOWN''), (''gold_grams'', PyStr ''9'') :: string \<times> unit pyval]]"
  have h1: "?rows ! 1 \<in> set ?rows" by simp
  have h2: "?rows ! 2 \<in> set ?rows" by simp
  have h3: "map_of (?rows ! 1) ''line_id'' = None" by simp
  have h4: "map_of (?rows ! 2) ''line_id'' = Some (PyStr ''UNKNOWN'')" by simp
  have a: "row_lid (?rows ! 1) = row_lid (?rows ! 2)"
    by (rule unknown_text_joins_default_line [OF h1 h2 h3 h4, THEN conjunct1])
  have b: "map (\<lambda>g. (line_id g, records g)) (lines (build_dashboard_json ?rows))
       = [(PyStr [], [[(''line_id'', PyStr []), (''gold_grams'', PyStr ''5'')]]),
          (PyStr ''UNKNOWN'', [[(''gold_grams'', PyStr ''7'')],
                [(''line_id'', PyStr ''UNKNOWN''), (''gold_grams'', PyStr ''9'')]])]"
    by (simp add: build_example_unknown)
  show ?thesis using h1 h2 h3 h4 a b by (intro conjI)
qed

end
